theory Spec2Isabelle
  imports Complex_Main
begin

section \<open>Values and errors of the Python notebook\<close>

text \<open>
  The notebook \<^verbatim>\<open>notebooks/imu-stepcount.ipynb\<close> computes with numpy doubles.
  They are modelled as real numbers extended by the three special values a double can
  take, so that a division by zero is the value numpy returns (an infinity or NaN) and not
  the value HOL gives to \<open>x / 0\<close>.  Rounding is not modelled, and zero stands for
  \<open>+0.0\<close>, the only zero the notebook divides by.
\<close>

datatype npfloat = Num real | PosInf | NegInf | NaN

datatype py_error =
  ValueError | TypeError | KeyError | OverflowError | ZeroDivisionError | AttributeError

fun np_div :: "npfloat \<Rightarrow> npfloat \<Rightarrow> npfloat" where
  "np_div NaN _ = NaN"
| "np_div _ NaN = NaN"
| "np_div (Num a) (Num b) =
     (if b \<noteq> 0 then Num (a / b)
      else if 0 < a then PosInf else if a < 0 then NegInf else NaN)"
| "np_div (Num a) PosInf = Num 0"
| "np_div (Num a) NegInf = Num 0"
| "np_div PosInf (Num b) = (if 0 \<le> b then PosInf else NegInf)"
| "np_div NegInf (Num b) = (if 0 \<le> b then NegInf else PosInf)"
| "np_div PosInf PosInf = NaN"
| "np_div PosInf NegInf = NaN"
| "np_div NegInf PosInf = NaN"
| "np_div NegInf NegInf = NaN"

fun np_mul :: "npfloat \<Rightarrow> npfloat \<Rightarrow> npfloat" where
  "np_mul NaN _ = NaN"
| "np_mul _ NaN = NaN"
| "np_mul (Num a) (Num b) = Num (a * b)"
| "np_mul (Num a) PosInf = (if 0 < a then PosInf else if a < 0 then NegInf else NaN)"
| "np_mul (Num a) NegInf = (if 0 < a then NegInf else if a < 0 then PosInf else NaN)"
| "np_mul PosInf (Num b) = (if 0 < b then PosInf else if b < 0 then NegInf else NaN)"
| "np_mul NegInf (Num b) = (if 0 < b then NegInf else if b < 0 then PosInf else NaN)"
| "np_mul PosInf PosInf = PosInf"
| "np_mul PosInf NegInf = NegInf"
| "np_mul NegInf PosInf = NegInf"
| "np_mul NegInf NegInf = PosInf"



text \<open>Sequencing of computations that may raise: the first exception wins.\<close>

definition bindE :: "py_error + 'a \<Rightarrow> ('a \<Rightarrow> py_error + 'b) \<Rightarrow> py_error + 'b" where
  "bindE m f = (case m of Inl e \<Rightarrow> Inl e | Inr v \<Rightarrow> f v)"

section \<open>The recording\<close>

text \<open>
  One row of the data frame \<^verbatim>\<open>df\<close> read from the CSV file with the columns
  \<^verbatim>\<open>time,aX,aY,aZ,gX,gY,gZ\<close>: the time in milliseconds is an integer, the six
  readings are doubles.  The frame has the default index \<open>0, 1, 2, ...\<close>, so a row is
  addressed by its position in the list.
\<close>

record sample =
  time :: int
  aX :: real
  aY :: real
  aZ :: real
  gX :: real
  gY :: real
  gZ :: real



text \<open>\<^verbatim>\<open>fs = 1000 / 10\<close>, the sampling frequency in Hz.\<close>

definition fs :: real where
  "fs = 1000 / 10"

section \<open>Gravity calibration\<close>








section \<open>Windows of the recording\<close>

text \<open>
  \<^verbatim>\<open>get_time_period(a, b)\<close> returns
  \<^verbatim>\<open>df.loc[(df.time >= a * 1000) & (df.time < b * 1000)]\<close>: the rows whose time lies
  in the half-open interval, each with its index label, in the order of the frame.
\<close>

definition get_time_period :: "sample list \<Rightarrow> real \<Rightarrow> real \<Rightarrow> (nat \<times> sample) list" where
  "get_time_period df a b =
     filter (\<lambda>(i, s). a * 1000 \<le> real_of_int (time s) \<and> real_of_int (time s) < b * 1000)
       (enumerate 0 df)"

definition frame_times :: "(nat \<times> sample) list \<Rightarrow> int list" where
  "frame_times frame = map (\<lambda>(i, s). time s) frame"

text \<open>
  \<^verbatim>\<open>dt = (frame.time.max() - frame.time.min()) / 1000.0\<close>; the maximum and the minimum
  of an empty column are NaN.
\<close>

definition frame_dt :: "(nat \<times> sample) list \<Rightarrow> npfloat" where
  "frame_dt frame =
     (if frame = [] then NaN
      else Num (real_of_int (Max (set (frame_times frame)) - Min (set (frame_times frame))) / 1000))"

text \<open>
  \<^verbatim>\<open>data.loc[frame.index].values\<close>: the values of the series \<^verbatim>\<open>data\<close> at the index
  labels of the frame; a label the series does not have raises \<^verbatim>\<open>KeyError\<close>.
\<close>

definition loc_values :: "real list \<Rightarrow> (nat \<times> sample) list \<Rightarrow> py_error + real list" where
  "loc_values data frame =
     (if list_all (\<lambda>(i, s). i < length data) frame
      then Inr (map (\<lambda>(i, s). data ! i) frame) else Inl KeyError)"

section \<open>The filter bank\<close>

text \<open>
  The notebook designs its filters with \<^verbatim>\<open>scipy.signal.butter\<close> and applies them with
  \<^verbatim>\<open>scipy.signal.filtfilt\<close>.  Neither routine is code of the notebook; both are
  parameters of the model, gathered in the record \<open>dsp\<close>.  Each may raise (a cutoff outside
  the open unit interval, an input no longer than the padding).
\<close>

datatype btype = Bandpass | Highpass | Lowpass

record dsp =
  butter :: "nat \<Rightarrow> real list \<Rightarrow> btype \<Rightarrow> py_error + (real list \<times> real list)"
  filtfilt :: "real list \<Rightarrow> real list \<Rightarrow> real list \<Rightarrow> py_error + real list"

text \<open>Division of two Python floats raises on a zero divisor.\<close>

definition py_div :: "real \<Rightarrow> real \<Rightarrow> py_error + real" where
  "py_div x y = (if y = 0 then Inl ZeroDivisionError else Inr (x / y))"

definition band_pass :: "dsp \<Rightarrow> real list \<Rightarrow> real \<Rightarrow> real \<Rightarrow> real \<Rightarrow> py_error + real list" where
  "band_pass lib data fc_low fc_high fs' =
     bindE (py_div fc_low (fs' / 2)) (\<lambda>w_low.
     bindE (py_div fc_high (fs' / 2)) (\<lambda>w_high.
     bindE (butter lib 5 [w_low, w_high] Bandpass) (\<lambda>(b, a).
     filtfilt lib b a data)))"

definition high_pass :: "dsp \<Rightarrow> real list \<Rightarrow> real \<Rightarrow> real \<Rightarrow> py_error + real list" where
  "high_pass lib data fc_low fs' =
     bindE (py_div fc_low (fs' / 2)) (\<lambda>w_low.
     bindE (butter lib 5 [w_low] Highpass) (\<lambda>(b, a).
     filtfilt lib b a data))"

definition low_pass :: "dsp \<Rightarrow> real list \<Rightarrow> real \<Rightarrow> real \<Rightarrow> py_error + real list" where
  "low_pass lib data fc_high fs' =
     bindE (py_div fc_high (fs' / 2)) (\<lambda>w_high.
     bindE (butter lib 5 [w_high] Lowpass) (\<lambda>(b, a).
     filtfilt lib b a data))"

text \<open>\<^verbatim>\<open>filter_series(data, fc_low=None, fc_high=None, fs=fs)\<close>.\<close>

definition filter_series ::
  "dsp \<Rightarrow> real list \<Rightarrow> real option \<Rightarrow> real option \<Rightarrow> real \<Rightarrow> py_error + real list" where
  "filter_series lib data fc_low fc_high fs' =
     (case (fc_low, fc_high) of
        (Some lo, Some hi) \<Rightarrow> band_pass lib data lo hi fs'
      | (Some lo, None) \<Rightarrow> high_pass lib data lo fs'
      | (None, Some hi) \<Rightarrow> low_pass lib data hi fs'
      | (None, None) \<Rightarrow> Inr data)"



section \<open>Peak finding\<close>

text \<open>
  \<^verbatim>\<open>scipy.signal.find_peaks\<close>, modelled from its documentation and reference
  implementation for the three conditions the notebook passes (\<^verbatim>\<open>height\<close>,
  \<^verbatim>\<open>distance\<close>, \<^verbatim>\<open>prominence\<close>).  First all local maxima: a sample, or the middle
  of a flat run of equal samples, whose two neighbouring values are strictly smaller; the
  first and the last sample never count.
\<close>

function plateau_end :: "real list \<Rightarrow> real \<Rightarrow> nat \<Rightarrow> nat" where
  "plateau_end x v j = (if j + 1 < length x \<and> x ! j = v then plateau_end x v (j + 1) else j)"
  by pat_completeness auto
termination
  by (relation "measure (\<lambda>(x, v, j). length x - j)") auto

declare plateau_end.simps [simp del]

lemma plateau_end_ge: "j \<le> plateau_end x v j"
proof (induction x v j rule: plateau_end.induct)
  case (1 x v j)
  show ?case
  proof (cases "j + 1 < length x \<and> x ! j = v")
    case True
    then have "plateau_end x v j = plateau_end x v (j + 1)"
      by (subst plateau_end.simps) simp
    with 1 True show ?thesis by simp
  next
    case False
    then have "plateau_end x v j = j"
      by (subst plateau_end.simps) auto
    then show ?thesis by simp
  qed
qed

function local_maxima_from :: "real list \<Rightarrow> nat \<Rightarrow> nat list" where
  "local_maxima_from x i =
     (if i + 1 < length x then
        (if x ! (i - 1) < x ! i then
           (let i_ahead = plateau_end x (x ! i) (i + 1) in
            if x ! i_ahead < x ! i
            then ((i + (i_ahead - 1)) div 2) # local_maxima_from x (i_ahead + 1)
            else local_maxima_from x (i + 1))
         else local_maxima_from x (i + 1))
      else [])"
  by pat_completeness auto
termination
proof (relation "measure (\<lambda>(x, i). length x - i)", goal_cases)
  case 1
  show ?case by simp
next
  case (2 x i i_ahead)
  have "i + 1 \<le> plateau_end x (x ! i) (i + 1)" by (rule plateau_end_ge)
  with 2 show ?case by simp
next
  case (3 x i i_ahead)
  then show ?case by simp
next
  case (4 x i)
  then show ?case by simp
qed

declare local_maxima_from.simps [simp del]

definition local_maxima_1d :: "real list \<Rightarrow> nat list" where
  "local_maxima_1d x = local_maxima_from x 1"




text \<open>
  The keyword arguments of \<^verbatim>\<open>find_peaks\<close> the notebook uses: \<^verbatim>\<open>height\<close> is a pair
  \<^verbatim>\<open>(min, max)\<close> whose parts may be \<^verbatim>\<open>None\<close>, \<^verbatim>\<open>distance\<close> a number of samples,
  \<^verbatim>\<open>prominence\<close> a minimal prominence.  A key that is absent is \<open>None\<close>.
\<close>

record peak_kwargs =
  height :: "(real option \<times> real option) option"
  distance :: "nat option"
  prominence :: "real option"

definition select_by_height :: "real list \<Rightarrow> real option \<times> real option \<Rightarrow> nat list \<Rightarrow> nat list" where
  "select_by_height x h peaks =
     filter (\<lambda>p. (case fst h of None \<Rightarrow> True | Some hmin \<Rightarrow> hmin \<le> x ! p) \<and>
                 (case snd h of None \<Rightarrow> True | Some hmax \<Rightarrow> x ! p \<le> hmax)) peaks"

text \<open>
  The distance condition: the peaks are visited from the highest to the lowest (the
  reverse of an ascending sort of their heights, here a stable one); a peak still kept
  removes every other peak closer than \<open>d\<close> samples.
\<close>

definition suppress_neighbours :: "nat list \<Rightarrow> nat \<Rightarrow> nat \<Rightarrow> bool list \<Rightarrow> bool list" where
  "suppress_neighbours peaks d j keep =
     (if keep ! j
      then map (\<lambda>k. if k \<noteq> j \<and> (if peaks ! k \<le> peaks ! j then peaks ! j - peaks ! k
                                  else peaks ! k - peaks ! j) < d
                     then False else keep ! k) [0..<length peaks]
      else keep)"

definition select_by_peak_distance :: "real list \<Rightarrow> nat \<Rightarrow> nat list \<Rightarrow> nat list" where
  "select_by_peak_distance x d peaks =
     (let priority_to_position = sort_key (\<lambda>j. x ! (peaks ! j)) [0..<length peaks];
          keep = fold (suppress_neighbours peaks d) (rev priority_to_position)
                   (replicate (length peaks) True)
      in map fst (filter snd (zip peaks keep)))"

text \<open>
  The prominence of a peak: its height above the higher of the two lowest values reached
  on each side before the signal rises above the peak (or ends).
\<close>

definition peak_prominence :: "real list \<Rightarrow> nat \<Rightarrow> real" where
  "peak_prominence x p =
     (let left_min = fold min (takeWhile (\<lambda>v. v \<le> x ! p) (rev (take (Suc p) x))) (x ! p);
          right_min = fold min (takeWhile (\<lambda>v. v \<le> x ! p) (drop p x)) (x ! p)
      in x ! p - max left_min right_min)"

definition find_peaks :: "real list \<Rightarrow> peak_kwargs \<Rightarrow> py_error + nat list" where
  "find_peaks x kw =
     (if (case distance kw of None \<Rightarrow> False | Some d \<Rightarrow> d < 1) then Inl ValueError
      else
        (let peaks = local_maxima_1d x;
             peaks = (case height kw of None \<Rightarrow> peaks | Some h \<Rightarrow> select_by_height x h peaks);
             peaks = (case distance kw of None \<Rightarrow> peaks
                      | Some d \<Rightarrow> select_by_peak_distance x d peaks);
             peaks = (case prominence kw of None \<Rightarrow> peaks
                      | Some pmin \<Rightarrow> filter (\<lambda>p. pmin \<le> peak_prominence x p) peaks)
         in Inr peaks))"

definition no_kwargs :: peak_kwargs where
  "no_kwargs = \<lparr>height = None, distance = None, prominence = None\<rparr>"

section \<open>The three estimators\<close>

text \<open>
  \<^verbatim>\<open>peak_detection_steps(data, pos_kwargs=None, neg_kwargs=None, plot=False)\<close>.
  The keyword dictionaries are unpacked with \<^verbatim>\<open>**\<close>, which raises
  \<^verbatim>\<open>TypeError\<close> on the default \<^verbatim>\<open>None\<close>.  Plotting does not change the result and
  is left out.
\<close>

definition peak_detection_steps ::
  "real list \<Rightarrow> peak_kwargs option \<Rightarrow> peak_kwargs option \<Rightarrow> py_error + nat" where
  "peak_detection_steps data pos_kwargs neg_kwargs =
     (case pos_kwargs of None \<Rightarrow> Inl TypeError
      | Some pos \<Rightarrow>
          bindE (find_peaks data pos) (\<lambda>peaks.
          (case neg_kwargs of None \<Rightarrow> Inl TypeError
           | Some neg \<Rightarrow>
               bindE (find_peaks (map uminus data) neg) (\<lambda>neg_peaks.
               Inr (max (length peaks) (length neg_peaks))))))"

text \<open>
  \<^verbatim>\<open>scipy.signal.periodogram(data, fs=fs)\<close> with its defaults, from its documentation:
  the mean is removed, the window is rectangular, the spectrum is one-sided with the
  frequencies \<open>k * fs / n\<close> for \<open>k = 0, ..., n div 2\<close>, and the density is the squared
  magnitude of the discrete Fourier transform over \<open>fs * n\<close>, doubled except at the
  frequency zero and, for even \<open>n\<close>, at the last one.  An empty input gives two empty
  arrays.  Every call of the notebook passes the global \<open>fs\<close>, which is not zero.
\<close>

definition dft_power :: "real list \<Rightarrow> nat \<Rightarrow> real" where
  "dft_power x k =
     (let n = length x in
      (\<Sum>j\<leftarrow>[0..<n]. x ! j * cos (2 * pi * real k * real j / real n))\<^sup>2 +
      (\<Sum>j\<leftarrow>[0..<n]. x ! j * sin (2 * pi * real k * real j / real n))\<^sup>2)"

definition periodogram :: "real list \<Rightarrow> real \<Rightarrow> real list \<times> real list" where
  "periodogram x fs' =
     (let n = length x;
          m = sum_list x / real n;
          xc = map (\<lambda>v. v - m) x;
          onesided = (\<lambda>k. if k = 0 \<or> (even n \<and> k = n div 2) then 1 else 2)
      in if n = 0 then ([], [])
         else (map (\<lambda>k. real k * fs' / real n) [0..<n div 2 + 1],
               map (\<lambda>k. onesided k * dft_power xc k / (fs' * real n)) [0..<n div 2 + 1]))"

text \<open>\<^verbatim>\<open>np.argmax\<close>: the first position of the greatest element.\<close>

fun np_argmax :: "real list \<Rightarrow> nat" where
  "np_argmax [] = 0"
| "np_argmax (x # xs) = (if list_all (\<lambda>y. y \<le> x) xs then 0 else Suc (np_argmax xs))"

text \<open>
  \<^verbatim>\<open>fft_dominant_freq(data, fs, plot=False)\<close> returns \<^verbatim>\<open>f[np.argmax(Pxx)]\<close>;
  \<^verbatim>\<open>np.argmax\<close> of an empty array raises \<^verbatim>\<open>ValueError\<close>.
\<close>

definition fft_dominant_freq :: "real list \<Rightarrow> real \<Rightarrow> py_error + real" where
  "fft_dominant_freq data fs' =
     (let (f, Pxx) = periodogram data fs'
      in if Pxx = [] then Inl ValueError else Inr (f ! np_argmax Pxx))"

text \<open>
  \<^verbatim>\<open>np.correlate(a, v, mode='full')\<close>, from its documentation: the entry at position
  \<open>k\<close> is the sum of \<open>a[n + k - (len(v) - 1)] * v[n]\<close> over the \<open>n\<close> for which both
  indices exist; empty inputs raise \<^verbatim>\<open>ValueError\<close>.
\<close>

definition np_correlate_full :: "real list \<Rightarrow> real list \<Rightarrow> py_error + real list" where
  "np_correlate_full a v =
     (if a = [] \<or> v = [] then Inl ValueError
      else Inr (map (\<lambda>k. \<Sum>n\<leftarrow>[0..<length v].
                      (if length v - 1 \<le> n + k \<and> n + k - (length v - 1) < length a
                       then a ! (n + k - (length v - 1)) * v ! n else 0))
                  [0..<length a + length v - 1]))"

text \<open>
  \<^verbatim>\<open>autocorr(x)\<close>: \<^verbatim>\<open>result[:int(len(result)/2)]\<close> of the full correlation of
  \<^verbatim>\<open>x\<close> with itself.
\<close>

definition autocorr :: "real list \<Rightarrow> py_error + real list" where
  "autocorr x = bindE (np_correlate_full x x) (\<lambda>result. Inr (take (length result div 2) result))"

text \<open>\<^verbatim>\<open>autocorr_steps(data, plot=False)\<close>: the number of peaks of \<^verbatim>\<open>find_peaks(corr)\<close>.\<close>

definition autocorr_steps :: "real list \<Rightarrow> py_error + nat" where
  "autocorr_steps data =
     bindE (autocorr data) (\<lambda>corr.
     bindE (find_peaks corr no_kwargs) (\<lambda>peaks. Inr (length peaks)))"

text \<open>
  \<^verbatim>\<open>to_steps_per_minute(step_count, dt)\<close> returns \<^verbatim>\<open>step_count / dt * 60\<close>, where
  \<^verbatim>\<open>dt\<close> is a numpy double in every call of the notebook.
\<close>

definition to_steps_per_minute :: "nat \<Rightarrow> npfloat \<Rightarrow> npfloat" where
  "to_steps_per_minute step_count dt = np_mul (np_div (Num (real step_count)) dt) (Num 60)"

record spm_row =
  peak_detection_spm :: npfloat
  fft_spm :: npfloat
  autocorrelation_spm :: npfloat



text \<open>The keyword dictionary \<^verbatim>\<open>peak_detection_kwargs\<close>, with the keys it may hold.\<close>

record peak_detection_kwargs =
  pos_kwargs :: "peak_kwargs option"
  neg_kwargs :: "peak_kwargs option"


text \<open>
  \<^verbatim>\<open>get_spm(data, a, b, peak_detection_fc=(None, None), fft_fc=(None, None),
  autocorrelation_fc=(None, None), peak_detection_kwargs={})\<close>, where \<^verbatim>\<open>data\<close> is a
  series over the index of \<^verbatim>\<open>df\<close>.
\<close>

definition get_spm ::
  "dsp \<Rightarrow> sample list \<Rightarrow> real list \<Rightarrow> real \<Rightarrow> real \<Rightarrow> real option \<times> real option \<Rightarrow>
   real option \<times> real option \<Rightarrow> real option \<times> real option \<Rightarrow> peak_detection_kwargs \<Rightarrow>
   py_error + spm_row" where
  "get_spm lib df data a b peak_detection_fc fft_fc autocorrelation_fc kwargs =
     (let frame = get_time_period df a b;
          dt = frame_dt frame
      in bindE (loc_values data frame) (\<lambda>v1.
         bindE (filter_series lib v1 (fst peak_detection_fc) (snd peak_detection_fc) fs) (\<lambda>d1.
         bindE (peak_detection_steps d1 (pos_kwargs kwargs) (neg_kwargs kwargs)) (\<lambda>n_peak_steps.
         bindE (loc_values data frame) (\<lambda>v2.
         bindE (filter_series lib v2 (fst fft_fc) (snd fft_fc) fs) (\<lambda>d2.
         bindE (fft_dominant_freq d2 fs) (\<lambda>dominant_freq.
         bindE (loc_values data frame) (\<lambda>v3.
         bindE (filter_series lib v3 (fst autocorrelation_fc) (snd autocorrelation_fc) fs) (\<lambda>d3.
         bindE (autocorr_steps d3) (\<lambda>n_autocorr_steps.
         Inr \<lparr>peak_detection_spm = to_steps_per_minute n_peak_steps dt,
              fft_spm = Num (dominant_freq * 60),
              autocorrelation_spm = to_steps_per_minute n_autocorr_steps dt\<rparr>))))))))))"

text \<open>
  The one-sided autocorrelation of the specification: the sums of the products of the
  window with itself shifted by the lags \<open>1, ..., n - 1\<close>, the zero lag left out.  The
  values are listed from the largest lag down to the lag one, the order in which
  \<open>autocorr\<close> holds them.
\<close>

definition one_sided_autocorrelation :: "real list \<Rightarrow> real list" where
  "one_sided_autocorrelation w =
     map (\<lambda>lag. \<Sum>i\<leftarrow>[0..<length w - lag]. w ! i * w ! (i + lag)) (rev [1..<length w])"

section \<open>The window aggregator\<close>





definition acceleration_kwargs :: peak_detection_kwargs where
  "acceleration_kwargs =
     \<lparr>pos_kwargs = Some \<lparr>height = Some (Some 35, None), distance = Some 20, prominence = Some 20\<rparr>,
      neg_kwargs = Some \<lparr>height = Some (Some 35, None), distance = Some 20, prominence = Some 20\<rparr>\<rparr>"




section \<open>The track exporter\<close>












section \<open>Motion-axis extraction\<close>
















section \<open>Concrete recordings\<close>

text \<open>A reading of the device at rest: one \<open>g\<close> along the third axis, no rotation.\<close>

definition still_sample :: "int \<Rightarrow> sample" where
  "still_sample t = \<lparr>time = t, aX = 0, aY = 0, aZ = 1, gX = 0, gY = 0, gZ = 0\<rparr>"

text \<open>
  A stand-in for the two scipy routines in concrete examples: the design \<open>b = a = [1]\<close>,
  whose application returns its input.
\<close>

definition identity_dsp :: dsp where
  "identity_dsp = \<lparr>butter = (\<lambda>N Wn bt. Inr ([1], [1])), filtfilt = (\<lambda>b a x. Inr x)\<rparr>"

text \<open>Seven rows ten milliseconds apart, and a series over them with peaks of height 40.\<close>

definition walk_df :: "sample list" where
  "walk_df = map still_sample [0, 10, 20, 30, 40, 50, 60]"

definition walk_series :: "real list" where
  "walk_series = [0, 40, 0, -40, 0, 40, 0]"

text \<open>Five rows ten milliseconds apart, and a series over them that is zero throughout.\<close>

definition flat_df :: "sample list" where
  "flat_df = map still_sample [0, 10, 20, 30, 40]"

definition flat_series :: "real list" where
  "flat_series = [0, 0, 0, 0, 0]"






section \<open>Gravity calibration: the mean of the span and the corrected acceleration\<close>

lemma sum_list_const: "(\<forall>v \<in> set xs. v = c) \<Longrightarrow> sum_list xs = real (length xs) * (c::real)"
  by (induction xs) (auto simp: algebra_simps)








section \<open>Exponential smoothing on finite values\<close>






section \<open>Peaks of the negated series\<close>

lemma plateau_end_lt: "j < length x \<Longrightarrow> plateau_end x v j < length x"
proof (induction x v j rule: plateau_end.induct)
  case (1 x v j)
  show ?case
  proof (cases "j + 1 < length x \<and> x ! j = v")
    case True
    then have "plateau_end x v j = plateau_end x v (j + 1)"
      by (subst plateau_end.simps) simp
    with 1 True show ?thesis by simp
  next
    case False
    then have "plateau_end x v j = j"
      by (subst plateau_end.simps) auto
    with 1 show ?thesis by simp
  qed
qed




section \<open>The estimators inside \<open>get_spm\<close>\<close>

lemma bindE_Inr_iff: "bindE m f = Inr y \<longleftrightarrow> (\<exists>v. m = Inr v \<and> f v = Inr y)"
  by (cases m) (simp_all add: bindE_def)

lemma bindE_Inr: "m = Inr v \<Longrightarrow> bindE m f = f v"
  by (simp add: bindE_def)

lemma peak_detection_steps_Inr_iff:
  "peak_detection_steps data pk nk = Inr n \<longleftrightarrow>
     (\<exists>pos neg maxima minima. pk = Some pos \<and> nk = Some neg \<and>
        find_peaks data pos = Inr maxima \<and> find_peaks (map uminus data) neg = Inr minima \<and>
        n = max (length maxima) (length minima))"
  by (cases pk; cases nk) (auto simp: peak_detection_steps_def bindE_Inr_iff)

lemma get_spm_Inr_iff:
  "get_spm lib df data a b pfc ffc afc kw = Inr r \<longleftrightarrow>
     (\<exists>v d1 n1 d2 f d3 n3.
        loc_values data (get_time_period df a b) = Inr v \<and>
        filter_series lib v (fst pfc) (snd pfc) fs = Inr d1 \<and>
        peak_detection_steps d1 (pos_kwargs kw) (neg_kwargs kw) = Inr n1 \<and>
        filter_series lib v (fst ffc) (snd ffc) fs = Inr d2 \<and>
        fft_dominant_freq d2 fs = Inr f \<and>
        filter_series lib v (fst afc) (snd afc) fs = Inr d3 \<and>
        autocorr_steps d3 = Inr n3 \<and>
        r = \<lparr>peak_detection_spm = to_steps_per_minute n1 (frame_dt (get_time_period df a b)),
             fft_spm = Num (f * 60),
             autocorrelation_spm = to_steps_per_minute n3 (frame_dt (get_time_period df a b))\<rparr>)"
  unfolding get_spm_def Let_def bindE_Inr_iff by auto

lemma to_steps_per_minute_Num:
  "d \<noteq> 0 \<Longrightarrow> to_steps_per_minute n (Num d) = Num (real n / d * 60)"
  by (simp add: to_steps_per_minute_def)

lemma periodogram_nonempty: "data \<noteq> [] \<Longrightarrow> snd (periodogram data fs') \<noteq> []"
  by (simp add: periodogram_def Let_def)

lemma fft_dominant_freq_nonempty:
  assumes "data \<noteq> []"
  shows "\<exists>f. fft_dominant_freq data fs' = Inr f"
  using periodogram_nonempty [OF assms, of fs']
  by (cases "periodogram data fs'") (simp add: fft_dominant_freq_def)

lemma filter_series_none: "filter_series lib data None None fs' = Inr data"
  by (simp add: filter_series_def)



section \<open>The autocorrelation of a window\<close>

lemma rev_upt_from_one: "rev [1..<n] = map (\<lambda>k. n - 1 - k) [0..<n - 1]"
  by (rule nth_equalityI) (auto simp: rev_nth)

lemma correlate_entry:
  assumes "k < n - 1"
  shows "(\<Sum>m\<leftarrow>[0..<n]. (if n - 1 \<le> m + k \<and> m + k - (n - 1) < n
                          then w ! (m + k - (n - 1)) * w ! m else 0)) =
         (\<Sum>i\<leftarrow>[0..<n - (n - 1 - k)]. (w ! i * w ! (i + (n - 1 - k)) :: real))"
proof -
  define lag where "lag = n - 1 - k"
  have lag: "lag \<le> n" "0 < lag" using assms by (simp_all add: lag_def)
  have c: "(n - 1 \<le> m + k \<and> m + k - (n - 1) < n) = (lag \<le> m)" if "m < n" for m
    using that assms by (auto simp: lag_def)
  have s: "m + k - (n - 1) = m - lag" if "lag \<le> m" for m
    using that assms by (simp add: lag_def)
  have "(\<Sum>m\<leftarrow>[0..<n]. (if n - 1 \<le> m + k \<and> m + k - (n - 1) < n
                          then w ! (m + k - (n - 1)) * w ! m else 0)) =
        (\<Sum>m = 0..<n. (if lag \<le> m then w ! (m - lag) * w ! m else 0))"
    unfolding interv_sum_list_conv_sum_set_nat
  proof (rule sum.cong)
    fix m assume "m \<in> {0..<n}"
    then have mn: "m < n" by simp
    show "(if n - 1 \<le> m + k \<and> m + k - (n - 1) < n
           then w ! (m + k - (n - 1)) * w ! m else 0) =
          (if lag \<le> m then w ! (m - lag) * w ! m else 0)"
    proof (cases "lag \<le> m")
      case True
      with c [OF mn] have A: "n - 1 \<le> m + k \<and> m + k - (n - 1) < n" by blast
      have "(if n - 1 \<le> m + k \<and> m + k - (n - 1) < n
             then w ! (m + k - (n - 1)) * w ! m else 0) = w ! (m + k - (n - 1)) * w ! m"
        using A by (rule if_P)
      also have "\<dots> = w ! (m - lag) * w ! m" by (simp only: s [OF True])
      also have "\<dots> = (if lag \<le> m then w ! (m - lag) * w ! m else 0)"
        using True by (rule if_P [symmetric])
      finally show ?thesis .
    next
      case False
      with c [OF mn] have A: "\<not> (n - 1 \<le> m + k \<and> m + k - (n - 1) < n)" by blast
      have "(if n - 1 \<le> m + k \<and> m + k - (n - 1) < n
             then w ! (m + k - (n - 1)) * w ! m else 0) = 0"
        using A by (rule if_not_P)
      also have "\<dots> = (if lag \<le> m then w ! (m - lag) * w ! m else 0)"
        using False by (rule if_not_P [symmetric])
      finally show ?thesis .
    qed
  qed simp
  also have "\<dots> = (\<Sum>m = lag..<n. w ! (m - lag) * w ! m)"
  proof -
    have "{0..<n} \<inter> {m. lag \<le> m} = {lag..<n}" by auto
    then show ?thesis by (simp add: sum.If_cases)
  qed
  also have "\<dots> = (\<Sum>i = 0..<n - lag. w ! i * w ! (i + lag))"
    using lag(1) sum.shift_bounds_nat_ivl [of "\<lambda>m. w ! (m - lag) * w ! m" 0 lag "n - lag"]
    by simp
  also have "\<dots> = (\<Sum>i\<leftarrow>[0..<n - lag]. w ! i * w ! (i + lag))"
    unfolding interv_sum_list_conv_sum_set_nat by simp
  finally show ?thesis unfolding lag_def .
qed

lemma autocorr_one_sided:
  assumes "w \<noteq> []"
  shows "autocorr w = Inr (one_sided_autocorrelation w)"
proof -
  let ?n = "length w"
  let ?g = "\<lambda>k. \<Sum>m\<leftarrow>[0..<?n]. (if ?n - 1 \<le> m + k \<and> m + k - (?n - 1) < ?n
                                 then w ! (m + k - (?n - 1)) * w ! m else 0)"
  have n: "0 < ?n" using assms by simp
  then have h: "(?n + ?n - Suc 0) div 2 = ?n - Suc 0" by presburger
  have "autocorr w = Inr (take (?n - 1) (map ?g [0..<?n + ?n - 1]))"
    using assms by (simp add: autocorr_def np_correlate_full_def bindE_def h)
  also have "take (?n - 1) (map ?g [0..<?n + ?n - 1]) = map ?g [0..<?n - 1]"
    by (simp add: take_map min_def)
  also have "\<dots> = map (\<lambda>k. \<Sum>i\<leftarrow>[0..<?n - (?n - 1 - k)]. w ! i * w ! (i + (?n - 1 - k))) [0..<?n - 1]"
  proof (rule map_cong [OF refl])
    fix k assume "k \<in> set [0..<?n - 1]"
    then have "k < ?n - 1" by simp
    then show "?g k = (\<Sum>i\<leftarrow>[0..<?n - (?n - 1 - k)]. w ! i * w ! (i + (?n - 1 - k)))"
      by (rule correlate_entry)
  qed
  also have "\<dots> = one_sided_autocorrelation w"
    unfolding one_sided_autocorrelation_def rev_upt_from_one by (simp add: comp_def)
  finally show ?thesis .
qed

lemma autocorr_steps_Inr_iff:
  "autocorr_steps w = Inr n \<longleftrightarrow>
     w \<noteq> [] \<and> n = length (local_maxima_1d (one_sided_autocorrelation w))"
proof (cases "w = []")
  case True
  then show ?thesis
    by (simp add: autocorr_steps_def autocorr_def np_correlate_full_def bindE_def)
next
  case False
  then show ?thesis
    by (auto simp: autocorr_steps_def autocorr_one_sided bindE_def find_peaks_def no_kwargs_def)
qed

section \<open>When \<open>get_spm\<close> returns\<close>

lemma find_peaks_total:
  assumes "\<forall>d. distance kw = Some d \<longrightarrow> 1 \<le> d"
  shows "\<exists>peaks. find_peaks x kw = Inr peaks"
proof -
  have d: "\<not> (case distance kw of None \<Rightarrow> False | Some d \<Rightarrow> d < 1)"
    using assms by (cases "distance kw") auto
  show ?thesis
    unfolding find_peaks_def Let_def if_not_P [OF d] by simp
qed

lemma get_spm_total:
  assumes "loc_values data (get_time_period df a b) = Inr vals"
    and "filter_series lib vals (fst pfc) (snd pfc) fs = Inr d1"
    and "filter_series lib vals (fst ffc) (snd ffc) fs = Inr d2" "d2 \<noteq> []"
    and "filter_series lib vals (fst afc) (snd afc) fs = Inr d3" "d3 \<noteq> []"
    and "pos_kwargs kw = Some pos" "neg_kwargs kw = Some neg"
    and "\<forall>d. distance pos = Some d \<longrightarrow> 1 \<le> d" "\<forall>d. distance neg = Some d \<longrightarrow> 1 \<le> d"
  shows "\<exists>r. get_spm lib df data a b pfc ffc afc kw = Inr r"
proof -
  obtain maxima where p: "find_peaks d1 pos = Inr maxima"
    using find_peaks_total [OF assms(9)] by blast
  obtain minima where q: "find_peaks (map uminus d1) neg = Inr minima"
    using find_peaks_total [OF assms(10)] by blast
  have s: "peak_detection_steps d1 (Some pos) (Some neg) =
             Inr (max (length maxima) (length minima))"
    unfolding peak_detection_steps_Inr_iff using p q by simp
  obtain f where f: "fft_dominant_freq d2 fs = Inr f"
    using fft_dominant_freq_nonempty [OF assms(4)] by blast
  have c: "autocorr_steps d3 = Inr (length (local_maxima_1d (one_sided_autocorrelation d3)))"
    unfolding autocorr_steps_Inr_iff using assms(6) by simp
  show ?thesis
    unfolding get_spm_Inr_iff
    using assms(1,2,3,5,7,8) s f c by simp
qed

lemma get_spm_unfiltered_total:
  assumes "loc_values data (get_time_period df a b) = Inr vals" "vals \<noteq> []"
    and "pos_kwargs kw = Some pos" "neg_kwargs kw = Some neg"
    and "\<forall>d. distance pos = Some d \<longrightarrow> 1 \<le> d" "\<forall>d. distance neg = Some d \<longrightarrow> 1 \<le> d"
  shows "\<exists>r. get_spm lib df data a b (None, None) (None, None) (None, None) kw = Inr r"
  using assms(1) _ _ assms(2) _ assms(2-6)
  by (rule get_spm_total) (simp_all add: filter_series_none)

lemma acceleration_kwargs_distance:
  "pos_kwargs acceleration_kwargs =
     Some \<lparr>height = Some (Some 35, None), distance = Some 20, prominence = Some 20\<rparr>"
  "neg_kwargs acceleration_kwargs =
     Some \<lparr>height = Some (Some 35, None), distance = Some 20, prominence = Some 20\<rparr>"
  by (simp_all add: acceleration_kwargs_def)



section \<open>The peak-based estimator\<close>



section \<open>The autocorrelation estimator\<close>



section \<open>The duration a window is normalised by\<close>






section \<open>Short and flat windows\<close>

lemma local_maxima_from_sorted: "sorted x \<Longrightarrow> local_maxima_from x i = []"
proof (induction x i rule: local_maxima_from.induct)
  case (1 x i)
  note srt = \<open>sorted x\<close>
  show ?case
  proof (cases "i + 1 < length x")
    case False
    then show ?thesis by (subst local_maxima_from.simps) simp
  next
    case True
    note in_range = True
    show ?thesis
    proof (cases "x ! (i - 1) < x ! i")
      case False
      with in_range "1.IH"(3) [OF in_range False srt] show ?thesis
        by (subst local_maxima_from.simps) simp
    next
      case True
      define i_ahead where "i_ahead = plateau_end x (x ! i) (i + 1)"
      have "i + 1 \<le> i_ahead" unfolding i_ahead_def by (rule plateau_end_ge)
      moreover have "i_ahead < length x"
        unfolding i_ahead_def using in_range by (rule plateau_end_lt)
      ultimately have "x ! i \<le> x ! i_ahead"
        using srt by (simp add: sorted_nth_mono)
      then have no: "\<not> x ! i_ahead < x ! i" by simp
      from "1.IH"(2) [OF in_range True i_ahead_def no srt] in_range True no
      show ?thesis
        by (subst local_maxima_from.simps) (simp add: i_ahead_def Let_def)
    qed
  qed
qed

lemma local_maxima_1d_sorted: "sorted x \<Longrightarrow> local_maxima_1d x = []"
  by (simp add: local_maxima_1d_def local_maxima_from_sorted)

lemma select_by_peak_distance_Nil: "select_by_peak_distance x d [] = []"
  by (simp add: select_by_peak_distance_def)

lemma find_peaks_no_maxima:
  assumes "local_maxima_1d x = []" "\<forall>d. distance kw = Some d \<longrightarrow> 1 \<le> d"
  shows "find_peaks x kw = Inr []"
proof -
  have d: "\<not> (case distance kw of None \<Rightarrow> False | Some d \<Rightarrow> d < 1)"
    using assms(2) by (cases "distance kw") auto
  show ?thesis
    unfolding find_peaks_def Let_def assms(1) if_not_P [OF d]
    by (simp add: select_by_height_def select_by_peak_distance_Nil
        split: option.splits)
qed

lemma flat_replicate: "(\<forall>v \<in> set xs. v = c) \<Longrightarrow> xs = replicate (length xs) c"
  by (simp add: replicate_length_same)

lemma flat_sorted: "(\<forall>v \<in> set xs. v = (c::real)) \<Longrightarrow> sorted xs \<and> sorted (map uminus xs)"
proof -
  assume "\<forall>v \<in> set xs. v = c"
  then have "xs = replicate (length xs) c" by (rule flat_replicate)
  then obtain n where "xs = replicate n c" ..
  then show ?thesis by (simp add: sorted_replicate)
qed

lemma one_sided_autocorrelation_flat:
  "one_sided_autocorrelation (replicate n c) = map (\<lambda>k. real (k + 1) * (c * c)) [0..<n - 1]"
proof -
  have e: "(\<Sum>i\<leftarrow>[0..<n - (n - 1 - k)]. replicate n c ! i * replicate n c ! (i + (n - 1 - k))) =
           real (k + 1) * (c * c)" if "k < n - 1" for k
  proof -
    have km: "n - (n - 1 - k) = k + 1" using that by simp
    have "map (\<lambda>i. replicate n c ! i * replicate n c ! (i + (n - 1 - k))) [0..<k + 1] =
          map (\<lambda>i. c * c) [0..<k + 1]"
      using that by (intro map_cong [OF refl]) auto
    then have "(\<Sum>i\<leftarrow>[0..<k + 1]. replicate n c ! i * replicate n c ! (i + (n - 1 - k))) =
               (\<Sum>i\<leftarrow>[0..<k + 1]. c * c)"
      by (rule arg_cong)
    also have "\<dots> = real (k + 1) * (c * c)"
      by (simp only: sum_list_triv length_upt diff_zero)
    finally show ?thesis unfolding km .
  qed
  show ?thesis
    unfolding one_sided_autocorrelation_def rev_upt_from_one length_replicate map_map comp_def
  proof (rule map_cong [OF refl])
    fix k assume "k \<in> set [0..<n - 1]"
    then have "k < n - 1" by simp
    then show "(\<Sum>i\<leftarrow>[0..<n - (n - 1 - k)].
                  replicate n c ! i * replicate n c ! (i + (n - 1 - k))) =
               real (k + 1) * (c * c)"
      by (rule e)
  qed
qed

lemma one_sided_autocorrelation_flat_sorted:
  "sorted (one_sided_autocorrelation (replicate n c))"
  unfolding one_sided_autocorrelation_flat sorted_iff_nth_mono
  by (auto intro!: mult_right_mono)

lemma autocorr_steps_flat:
  assumes "xs \<noteq> []" "\<forall>v \<in> set xs. v = c"
  shows "autocorr_steps xs = Inr 0"
proof -
  have "xs = replicate (length xs) c" using assms(2) by (rule flat_replicate)
  then have "sorted (one_sided_autocorrelation xs)"
    using one_sided_autocorrelation_flat_sorted [of "length xs" c] by simp
  then show ?thesis
    using assms(1) by (simp add: autocorr_steps_Inr_iff local_maxima_1d_sorted)
qed

lemma sum_list_map_zero: "(\<And>y. y \<in> set ys \<Longrightarrow> f y = (0::real)) \<Longrightarrow> sum_list (map f ys) = 0"
  by (induction ys) simp_all

lemma dft_power_zero:
  assumes "\<forall>v \<in> set x. v = 0"
  shows "dft_power x k = 0"
proof -
  have z: "x ! j = 0" if "j \<in> set [0..<length x]" for j
    using assms that by simp
  have "(\<Sum>j\<leftarrow>[0..<length x]. x ! j * cos (2 * pi * real k * real j / real (length x))) = 0"
    by (rule sum_list_map_zero) (simp only: z mult_zero_left)
  moreover
  have "(\<Sum>j\<leftarrow>[0..<length x]. x ! j * sin (2 * pi * real k * real j / real (length x))) = 0"
    by (rule sum_list_map_zero) (simp only: z mult_zero_left)
  ultimately show ?thesis by (simp add: dft_power_def Let_def)
qed

lemma np_argmax_zeros: "np_argmax (map (\<lambda>k. 0) ks) = 0"
  by (cases ks) (simp_all add: list_all_iff)

lemma fft_dominant_freq_flat:
  assumes "xs \<noteq> []" "\<forall>v \<in> set xs. v = c"
  shows "fft_dominant_freq xs fs' = Inr 0"
proof -
  let ?n = "length xs"
  have n: "0 < ?n" using assms(1) by simp
  have "sum_list xs = real ?n * c" using assms(2) by (rule sum_list_const)
  then have m: "sum_list xs / real ?n = c" using n by simp
  have z: "\<forall>v \<in> set (map (\<lambda>v. v - c) xs). v = 0" using assms(2) by auto
  have p: "periodogram xs fs' =
             (map (\<lambda>k. real k * fs' / real ?n) [0..<?n div 2 + 1],
              map (\<lambda>k. 0) [0..<?n div 2 + 1])"
    using n by (simp add: periodogram_def Let_def m dft_power_zero [OF z])
  have a: "np_argmax (map (\<lambda>k. 0) [0..<?n div 2 + 1]) = 0"
    by (rule np_argmax_zeros)
  have z: "map (\<lambda>k. real k * fs' / real ?n) [0..<?n div 2 + 1] ! 0 = 0"
    by (subst nth_map) (simp_all del: upt_Suc)
  have ne: "map (\<lambda>k. 0::real) [0..<?n div 2 + 1] \<noteq> []"
    by (simp del: upt_Suc)
  have v: "map (\<lambda>k. real k * fs' / real ?n) [0..<?n div 2 + 1] !
             np_argmax (map (\<lambda>k. 0) [0..<?n div 2 + 1]) = 0"
    unfolding a by (fact z)
  show ?thesis
    unfolding fft_dominant_freq_def p by (simp only: Let_def prod.case ne if_False v)
qed

lemma get_spm_unfiltered_flat:
  assumes "loc_values data (get_time_period df a b) = Inr vals" "vals \<noteq> []"
    and "pos_kwargs kw = Some pos" "neg_kwargs kw = Some neg"
    and "\<forall>d. distance pos = Some d \<longrightarrow> 1 \<le> d" "\<forall>d. distance neg = Some d \<longrightarrow> 1 \<le> d"
    and "\<forall>v \<in> set vals. v = c"
  shows "get_spm lib df data a b (None, None) (None, None) (None, None) kw =
           Inr \<lparr>peak_detection_spm = to_steps_per_minute 0 (frame_dt (get_time_period df a b)),
                fft_spm = Num 0,
                autocorrelation_spm = to_steps_per_minute 0 (frame_dt (get_time_period df a b))\<rparr>"
proof -
  have srt: "sorted vals" "sorted (map uminus vals)"
    using flat_sorted [OF assms(7)] by simp_all
  have p: "find_peaks vals pos = Inr []"
    using local_maxima_1d_sorted [OF srt(1)] assms(5) by (rule find_peaks_no_maxima)
  have q: "find_peaks (map uminus vals) neg = Inr []"
    using local_maxima_1d_sorted [OF srt(2)] assms(6) by (rule find_peaks_no_maxima)
  have s: "peak_detection_steps vals (Some pos) (Some neg) = Inr 0"
    unfolding peak_detection_steps_Inr_iff using p q by simp
  have f: "fft_dominant_freq vals fs = Inr 0"
    using assms(2,7) by (rule fft_dominant_freq_flat)
  have c: "autocorr_steps vals = Inr 0"
    using assms(2,7) by (rule autocorr_steps_flat)
  show ?thesis
    unfolding get_spm_Inr_iff
    using assms(1,3,4) s f c by (simp add: filter_series_none)
qed

lemma flat_window:
  "loc_values flat_series (get_time_period flat_df 0 10) = Inr flat_series"
  "frame_dt (get_time_period flat_df 0 10) = Num (4 / 100)"
  by code_simp+

lemma flat_get_spm:
  "get_spm lib flat_df flat_series 0 10 (None, None) (None, None) (None, None)
     acceleration_kwargs =
   Inr \<lparr>peak_detection_spm = Num 0, fft_spm = Num 0, autocorrelation_spm = Num 0\<rparr>"
proof -
  have t: "to_steps_per_minute 0 (Num (4 / 100)) = Num 0"
    by (simp add: to_steps_per_minute_def)
  have "get_spm lib flat_df flat_series 0 10 (None, None) (None, None) (None, None)
          acceleration_kwargs =
        Inr \<lparr>peak_detection_spm = to_steps_per_minute 0 (frame_dt (get_time_period flat_df 0 10)),
             fft_spm = Num 0,
             autocorrelation_spm = to_steps_per_minute 0 (frame_dt (get_time_period flat_df 0 10))\<rparr>"
    by (rule get_spm_unfiltered_flat [where c = 0, OF flat_window(1) _ acceleration_kwargs_distance])
      (simp_all add: flat_series_def)
  then show ?thesis by (simp only: flat_window(2) t)
qed

text \<open>
  Claim C3 does not hold of the code: \<open>get_spm\<close> checks neither the number of samples nor
  the variance of its window.  A window of five rows whose series is zero throughout
  returns a row of three numbers.
\<close>

theorem short_flat_window_counterexample:
  "length (get_time_period flat_df 0 10) = 5 \<and>
   loc_values flat_series (get_time_period flat_df 0 10) = Inr [0, 0, 0, 0, 0] \<and>
   get_spm identity_dsp flat_df flat_series 0 10 (None, None) (None, None) (None, None)
     acceleration_kwargs =
   Inr \<lparr>peak_detection_spm = Num 0, fft_spm = Num 0, autocorrelation_spm = Num 0\<rparr>"
proof -
  have "length (get_time_period flat_df 0 10) = 5" by code_simp
  then show ?thesis
    using flat_window(1) flat_get_spm [of identity_dsp] by (simp add: flat_series_def)
qed

text \<open>
  Claim C3 as amended.  With no filter configured (the defaults of \<open>get_spm\<close>) and both
  keyword dictionaries given with a distance of at least one sample, every window that
  holds at least one row returns a row of values, however few its samples; no error is
  raised.  If the window is flat (all its values equal), the row holds zero steps for the
  peak-based and the autocorrelation method, normalised as usual, and the frequency zero
  for the spectral method: three times the number 0 when the window spans a positive time.
\<close>

theorem window_without_checks:
  assumes "loc_values data (get_time_period df a b) = Inr vals" "vals \<noteq> []"
    and "pos_kwargs kw = Some pos" "neg_kwargs kw = Some neg"
    and "\<forall>d. distance pos = Some d \<longrightarrow> 1 \<le> d" "\<forall>d. distance neg = Some d \<longrightarrow> 1 \<le> d"
  shows "(\<exists>r. get_spm lib df data a b (None, None) (None, None) (None, None) kw = Inr r) \<and>
         ((\<forall>v \<in> set vals. v = c) \<longrightarrow>
            get_spm lib df data a b (None, None) (None, None) (None, None) kw =
              Inr \<lparr>peak_detection_spm = to_steps_per_minute 0 (frame_dt (get_time_period df a b)),
                   fft_spm = Num 0,
                   autocorrelation_spm =
                     to_steps_per_minute 0 (frame_dt (get_time_period df a b))\<rparr> \<and>
            (\<forall>d. frame_dt (get_time_period df a b) = Num d \<and> d \<noteq> 0 \<longrightarrow>
               get_spm lib df data a b (None, None) (None, None) (None, None) kw =
                 Inr \<lparr>peak_detection_spm = Num 0, fft_spm = Num 0,
                      autocorrelation_spm = Num 0\<rparr>))"
proof (intro conjI impI allI)
  show "\<exists>r. get_spm lib df data a b (None, None) (None, None) (None, None) kw = Inr r"
    using assms by (rule get_spm_unfiltered_total)
next
  assume "\<forall>v \<in> set vals. v = c"
  with assms show "get_spm lib df data a b (None, None) (None, None) (None, None) kw =
      Inr \<lparr>peak_detection_spm = to_steps_per_minute 0 (frame_dt (get_time_period df a b)),
           fft_spm = Num 0,
           autocorrelation_spm = to_steps_per_minute 0 (frame_dt (get_time_period df a b))\<rparr>"
    by (rule get_spm_unfiltered_flat)
next
  fix d
  assume flat: "\<forall>v \<in> set vals. v = c"
    and d: "frame_dt (get_time_period df a b) = Num d \<and> d \<noteq> 0"
  have "get_spm lib df data a b (None, None) (None, None) (None, None) kw =
      Inr \<lparr>peak_detection_spm = to_steps_per_minute 0 (frame_dt (get_time_period df a b)),
           fft_spm = Num 0,
           autocorrelation_spm = to_steps_per_minute 0 (frame_dt (get_time_period df a b))\<rparr>"
    using assms flat by (rule get_spm_unfiltered_flat)
  then show "get_spm lib df data a b (None, None) (None, None) (None, None) kw =
      Inr \<lparr>peak_detection_spm = Num 0, fft_spm = Num 0, autocorrelation_spm = Num 0\<rparr>"
    using d by (simp add: to_steps_per_minute_Num)
qed

theorem window_without_checks_witness:
  "loc_values walk_series (get_time_period walk_df 0 (3 / 100)) = Inr [0, 40, 0] \<and>
   (\<exists>r. get_spm identity_dsp walk_df walk_series 0 (3 / 100) (None, None) (None, None)
           (None, None) acceleration_kwargs = Inr r) \<and>
   loc_values flat_series (get_time_period flat_df 0 (3 / 100)) = Inr [0, 0, 0] \<and>
   frame_dt (get_time_period flat_df 0 (3 / 100)) = Num (2 / 100) \<and>
   get_spm identity_dsp flat_df flat_series 0 (3 / 100) (None, None) (None, None) (None, None)
     acceleration_kwargs =
   Inr \<lparr>peak_detection_spm = Num 0, fft_spm = Num 0, autocorrelation_spm = Num 0\<rparr>"
proof -
  have w: "loc_values walk_series (get_time_period walk_df 0 (3 / 100)) = Inr [0, 40, 0]"
    by code_simp
  have f: "loc_values flat_series (get_time_period flat_df 0 (3 / 100)) = Inr [0, 0, 0]"
    "frame_dt (get_time_period flat_df 0 (3 / 100)) = Num (2 / 100)"
    by code_simp+
  have d: "\<forall>d. distance \<lparr>height = Some (Some 35, None), distance = Some 20,
                          prominence = Some 20\<rparr> = Some d \<longrightarrow> 1 \<le> d"
    by simp
  from window_without_checks [OF w _ acceleration_kwargs_distance d d,
      of identity_dsp 0]
    window_without_checks [OF f(1) _ acceleration_kwargs_distance d d, of identity_dsp 0]
  show ?thesis
    using w f by (simp add: to_steps_per_minute_def)
qed

section \<open>The smoothed columns of the aggregator\<close>









section \<open>The cadence written to the track\<close>















section \<open>Principal components of a series along one axis\<close>






























section \<open>Principal components of a stationary series\<close>











end
